theory Spec2Isabelle
  imports Main
begin

section \<open>Python values and exceptions\<close>

text \<open>
  The training driver \<^verbatim>\<open>examples/deepspeech2/train_ds2.py\<close> handles dynamically typed
  values: command-line attributes (\<^verbatim>\<open>None\<close>, booleans, integers, strings) and the values
  of a loaded YAML configuration (scalars, lists, nested dictionaries). A dictionary is an
  association list read by its first matching key. Floating-point scalars are never
  inspected by the driver and are not represented.
\<close>

datatype pyval =
    PNone
  | PBool bool
  | PInt int
  | PStr string
  | PList "pyval list"
  | PDict "(string \<times> pyval) list"

datatype py_error =
    SystemExit int
  | FileNotFoundError string
  | ConfigError string
  | KeyError string
  | TypeError
  | AttributeError string

text \<open>The truth value that \<^verbatim>\<open>if x:\<close> tests.\<close>

fun truthy :: "pyval \<Rightarrow> bool" where
  "truthy PNone = False"
| "truthy (PBool b) = b"
| "truthy (PInt i) = (i \<noteq> 0)"
| "truthy (PStr s) = (s \<noteq> [])"
| "truthy (PList xs) = (xs \<noteq> [])"
| "truthy (PDict kvs) = (kvs \<noteq> [])"

text \<open>\<^verbatim>\<open>d[key]\<close>: a missing key raises KeyError, a value that is no dictionary TypeError.\<close>

fun getitem :: "pyval \<Rightarrow> string \<Rightarrow> py_error + pyval" where
  "getitem (PDict kvs) k = (case map_of kvs k of None \<Rightarrow> Inl (KeyError k) | Some v \<Rightarrow> Inr v)"
| "getitem v k = Inl TypeError"

section \<open>The built-in conversions used as argparse types\<close>

text \<open>
  \<^verbatim>\<open>bool(s)\<close> of a string is its non-emptiness and \<^verbatim>\<open>str(s)\<close> is the string itself.
  \<^verbatim>\<open>int(s)\<close> is Python's own reader of integer literals; it is a parameter of the
  model: a function that gives the integer \<^verbatim>\<open>int\<close> reads from a string, or nothing where
  \<^verbatim>\<open>int\<close> raises ValueError. An argument declared without a type keeps the string.
\<close>

definition py_bool :: "string \<Rightarrow> bool" where
  "py_bool s = (s \<noteq> [])"

datatype arg_type = Type_str | Type_bool | Type_int

fun convert :: "(string \<Rightarrow> int option) \<Rightarrow> arg_type option \<Rightarrow> string \<Rightarrow> py_error + pyval" where
  "convert int_of None s = Inr (PStr s)"
| "convert int_of (Some Type_str) s = Inr (PStr s)"
| "convert int_of (Some Type_bool) s = Inr (PBool (py_bool s))"
| "convert int_of (Some Type_int) s =
     (case int_of s of None \<Rightarrow> Inl (SystemExit 2) | Some n \<Rightarrow> Inr (PInt n))"

section \<open>The command line (lines 35 to 58)\<close>

text \<open>
  \<^verbatim>\<open>argparse.ArgumentParser(prog=...)\<close> on line 35 registers the help action
  (\<^verbatim>\<open>-h\<close>, \<^verbatim>\<open>--help\<close>), which stores nothing, takes no argument and ends the process with
  status 0. Each \<^verbatim>\<open>parser.add_argument\<close> call then registers a storing action: its option
  strings, the attribute it stores to, the conversion applied to the supplied string, and
  the default. argparse derives the attribute name from the first long option string.
\<close>

datatype arg_action = Store | Help

record argument =
  option_strings :: "string list"
  dest :: string
  action :: arg_action
  type_f :: "arg_type option"
  default_v :: "pyval option"
  help_text :: string

definition dest_of :: "string list \<Rightarrow> string" where
  "dest_of opts =
     (let long = filter (\<lambda>s. take 2 s = ''--'') opts;
          chosen = (case long of l # _ \<Rightarrow> l | [] \<Rightarrow> (case opts of s # _ \<Rightarrow> s | [] \<Rightarrow> []))
      in map (\<lambda>c. if c = CHR ''-'' then CHR ''_'' else c) (dropWhile (\<lambda>c. c = CHR ''-'') chosen))"

definition help_action :: argument where
  "help_action =
     \<lparr>option_strings = [''-h'', ''--help''], dest = ''help'', action = Help, type_f = None,
      default_v = None, help_text = ''show this help message and exit''\<rparr>"

definition ArgumentParser :: "argument list" where
  "ArgumentParser = [help_action]"

definition add_argument :: "string list \<Rightarrow> arg_type \<Rightarrow> pyval \<Rightarrow> string \<Rightarrow> argument" where
  "add_argument opts ty dflt h =
     \<lparr>option_strings = opts, dest = dest_of opts, action = Store, type_f = Some ty,
      default_v = Some dflt, help_text = h\<rparr>"

text \<open>
  \<^verbatim>\<open>os.path.join\<close> of two components, and \<^verbatim>\<open>DEFAULT_YAML\<close> (line 29); the absolute
  directory of the script is a parameter.
\<close>

definition path_join :: "string \<Rightarrow> string \<Rightarrow> string" where
  "path_join a b =
     (if take 1 b = ''/'' then b
      else if a = [] \<or> last a = CHR ''/'' then a @ b
      else a @ ''/'' @ b)"

definition DEFAULT_YAML :: "string \<Rightarrow> string" where
  "DEFAULT_YAML script_dir = path_join (path_join script_dir ''configs'') ''vivos.yml''"

definition parser :: "string \<Rightarrow> argument list" where
  "parser script_dir =
     ArgumentParser @
     [add_argument [''--config'', ''-c''] Type_str (PStr (DEFAULT_YAML script_dir))
        ''The file path of model configuration file'',
      add_argument [''--export'', ''-e''] Type_str PNone
        ''Path to the model file to be exported'',
      add_argument [''--mixed_precision''] Type_bool (PBool False)
        ''Whether to use mixed precision training'',
      add_argument [''--save_weights''] Type_bool (PBool False)
        ''Whether to save or load only weights'',
      add_argument [''--max_ckpts''] Type_int (PInt 10)
        ''Max number of checkpoints to keep'',
      add_argument [''--eval_train_ratio''] Type_int (PInt 1)
        ''ratio between train batch size and eval batch size'',
      add_argument [''--tfrecords''] Type_bool (PBool False)
        ''Whether to use tfrecords dataset'']"

text \<open>
  A command line is the list of its option occurrences. An occurrence is the option
  string as argparse reads it off the command line (without an \<^verbatim>\<open>=value\<close> part or an
  argument attached to a short option), with the argument argparse pairs with it, if
  any: \<^verbatim>\<open>--max_ckpts 5\<close> and \<^verbatim>\<open>--max_ckpts=5\<close> are \<open>(''--max_ckpts'', Some ''5'')\<close>, and
  \<^verbatim>\<open>-h\<close> is \<open>(''-h'', None)\<close>. A string that is no option (a stray argument, \<^verbatim>\<open>--\<close>) is an
  occurrence whose option string resolves to nothing.

  argparse resolves an option string to the action registered for it; failing that, a
  string that begins with \<^verbatim>\<open>--\<close> resolves to the one registered option string it is a
  prefix of, and is ambiguous when it is a prefix of several.
\<close>

type_synonym occurrence = "string \<times> string option"

definition option_string_actions :: "argument list \<Rightarrow> (string \<times> argument) list" where
  "option_string_actions acts = concat (map (\<lambda>a. map (\<lambda>s. (s, a)) (option_strings a)) acts)"

datatype resolution = Unknown | Ambiguous | Resolved argument

definition resolve :: "argument list \<Rightarrow> string \<Rightarrow> resolution" where
  "resolve acts opt =
     (case map_of (option_string_actions acts) opt of
        Some a \<Rightarrow> Resolved a
      | None \<Rightarrow>
          if take 2 opt = ''--'' \<and> opt \<noteq> ''--'' then
            (case filter (\<lambda>(s, a). take (length opt) s = opt) (option_string_actions acts) of
               [] \<Rightarrow> Unknown
             | [(s, a)] \<Rightarrow> Resolved a
             | _ \<Rightarrow> Ambiguous)
          else Unknown)"

text \<open>
  The namespace starts from the defaults of the actions that have one. The occurrences
  are then taken in order. The help action ends the process with status 0. A storing
  action converts its argument and stores it, so the last occurrence stands; a missing
  argument, an argument given to the help action, or a string the conversion rejects
  ends the process with status 2. Strings that resolve to nothing are collected, and
  refused with status 2 once all occurrences are read. An ambiguous option string is
  refused with status 2 before anything else is done.
\<close>

type_synonym namespace = "string \<rightharpoonup> pyval"

definition getattr :: "namespace \<Rightarrow> string \<Rightarrow> py_error + pyval" where
  "getattr ns a = (case ns a of None \<Rightarrow> Inl (AttributeError a) | Some v \<Rightarrow> Inr v)"

definition defaults :: "argument list \<Rightarrow> namespace" where
  "defaults acts =
     foldl (\<lambda>ns a. case default_v a of None \<Rightarrow> ns | Some v \<Rightarrow> ns(dest a \<mapsto> v)) Map.empty acts"

fun consume ::
  "(string \<Rightarrow> int option) \<Rightarrow> argument list \<Rightarrow> occurrence list \<Rightarrow> namespace \<Rightarrow> bool \<Rightarrow>
   py_error + namespace" where
  "consume int_of acts [] ns extras = (if extras then Inl (SystemExit 2) else Inr ns)"
| "consume int_of acts ((opt, arg) # rest) ns extras =
     (case resolve acts opt of
        Unknown \<Rightarrow> consume int_of acts rest ns True
      | Ambiguous \<Rightarrow> Inl (SystemExit 2)
      | Resolved a \<Rightarrow>
          (case action a of
             Help \<Rightarrow> (case arg of None \<Rightarrow> Inl (SystemExit 0) | Some s \<Rightarrow> Inl (SystemExit 2))
           | Store \<Rightarrow>
               (case arg of
                  None \<Rightarrow> Inl (SystemExit 2)
                | Some s \<Rightarrow>
                    (case convert int_of (type_f a) s of
                       Inl err \<Rightarrow> Inl err
                     | Inr v \<Rightarrow> consume int_of acts rest (ns(dest a \<mapsto> v)) extras))))"

definition parse_args ::
  "(string \<Rightarrow> int option) \<Rightarrow> argument list \<Rightarrow> occurrence list \<Rightarrow> py_error + namespace" where
  "parse_args int_of acts argv =
     (if list_ex (\<lambda>(opt, arg). resolve acts opt = Ambiguous) argv then Inl (SystemExit 2)
      else consume int_of acts argv (defaults acts) False)"

section \<open>Running the script: events and exceptions\<close>

text \<open>
  A computation of the script yields the calls it made into the framework and the
  library, in order, and either a value or the exception that ended it. The library calls
  themselves (constructors, \<^verbatim>\<open>fit\<close>, \<^verbatim>\<open>save\<close>) are opaque: an event records the call
  with its arguments, and the model follows the run in which they return.
\<close>

datatype featurizer = TFSpeechFeaturizer pyval | TextFeaturizer pyval

datatype dataset_kind = ASRTFRecordDataset | ASRSliceDataset

record dataset =
  kind :: dataset_kind
  data_paths :: pyval
  tfrecords_dir :: "pyval option"
  speech_featurizer :: featurizer
  text_featurizer :: featurizer
  stage :: string
  augmentations :: "pyval option"
  shuffle :: bool

datatype event =
    ClearSession
  | NewFeaturizer featurizer
  | SetSeed int
  | SetPolicy string
  | Print string
  | NewDataset dataset
  | NewTrainer featurizer featurizer pyval pyval
  | EnterScope
  | NewModel "nat option list" pyval nat string
  | BuildModel "nat list"
  | ExitScope
  | Compile pyval pyval
  | Fit dataset dataset pyval
  | SaveWeights pyval
  | Save pyval

type_synonym 'a io = "event list \<times> (py_error + 'a)"

definition ret :: "'a \<Rightarrow> 'a io" where
  "ret x = ([], Inr x)"

definition emit :: "event \<Rightarrow> unit io" where
  "emit e = ([e], Inr ())"

definition lift :: "py_error + 'a \<Rightarrow> 'a io" where
  "lift r = ([], r)"

definition and_then :: "'a io \<Rightarrow> ('a \<Rightarrow> 'b io) \<Rightarrow> 'b io" where
  "and_then m f =
     (case m of
        (tr, Inl e) \<Rightarrow> (tr, Inl e)
      | (tr, Inr x) \<Rightarrow> (case f x of (tr', r) \<Rightarrow> (tr @ tr', r)))"

text \<open>A \<^verbatim>\<open>with\<close> block: the exit call runs whether or not the body raised.\<close>

definition with_exit :: "event \<Rightarrow> 'a io \<Rightarrow> 'a io" where
  "with_exit e m = (case m of (tr, r) \<Rightarrow> (tr @ [e], r))"

definition trace :: "'a io \<Rightarrow> event list" where
  "trace m = fst m"

definition outcome :: "'a io \<Rightarrow> py_error + 'a" where
  "outcome m = snd m"

section \<open>Configuration loader\<close>

text \<open>
  Modelled from the spec: \<^verbatim>\<open>UserConfig\<close> (\<^verbatim>\<open>tiramisu_asr.configs.user_config\<close>) is
  imported and called on line 60, its code is not among the sources. The spec: it accepts
  a default settings path and an optional override path and produces a single merged
  settings structure; override values take precedence per key; a missing override file
  falls back to the defaults silently; a required key that is absent fails with a
  ConfigError at the point of first use. The YAML files are a parameter: a path is
  mapped to the top-level mapping parsed from it, or to nothing when no file is there.
  The spec gives the \<^verbatim>\<open>learning\<close> flag no effect.
\<close>

type_synonym files = "string \<rightharpoonup> (string \<times> pyval) list"

definition merge_settings ::
  "(string \<times> pyval) list \<Rightarrow> (string \<times> pyval) list \<Rightarrow> (string \<times> pyval) list" where
  "merge_settings dflt ovr = ovr @ filter (\<lambda>(k, v). map_of ovr k = None) dflt"

definition UserConfig :: "files \<Rightarrow> string \<Rightarrow> pyval \<Rightarrow> bool \<Rightarrow> py_error + pyval" where
  "UserConfig fs default_path custom learning =
     (case fs default_path of
        None \<Rightarrow> Inl (FileNotFoundError default_path)
      | Some d \<Rightarrow>
          (case custom of
             PNone \<Rightarrow> Inr (PDict d)
           | PStr p \<Rightarrow>
               (case fs p of
                  None \<Rightarrow> Inr (PDict d)
                | Some c \<Rightarrow> Inr (PDict (merge_settings d c)))
           | _ \<Rightarrow> Inl TypeError))"

definition config_getitem :: "pyval \<Rightarrow> string \<Rightarrow> py_error + pyval" where
  "config_getitem cfg k =
     (case getitem cfg k of Inl (KeyError _) \<Rightarrow> Inl (ConfigError k) | r \<Rightarrow> r)"

definition bind_r :: "py_error + 'a \<Rightarrow> ('a \<Rightarrow> py_error + 'b) \<Rightarrow> py_error + 'b" where
  "bind_r r f = (case r of Inl e \<Rightarrow> Inl e | Inr x \<Rightarrow> f x)"

text \<open>\<^verbatim>\<open>config["learning_config"][k]\<close> and \<^verbatim>\<open>config["learning_config"]["dataset_config"][k]\<close>.\<close>

definition learning_config :: "pyval \<Rightarrow> string \<Rightarrow> py_error + pyval" where
  "learning_config config k =
     bind_r (config_getitem config ''learning_config'') (\<lambda>lc. getitem lc k)"

definition dataset_config :: "pyval \<Rightarrow> string \<Rightarrow> py_error + pyval" where
  "dataset_config config k =
     bind_r (learning_config config ''dataset_config'') (\<lambda>dc. getitem dc k)"

section \<open>The training driver\<close>

text \<open>
  What the script reads from its surroundings: the directory it lies in, the YAML files,
  Python's \<^verbatim>\<open>int\<close> on strings, and what the two featurizers answer when asked for the
  feature dimensions (\<^verbatim>\<open>compute_feature_dim()\<close>, line 101) and the number of classes
  (line 105); both featurizer classes are outside the sources, so their answers are
  parameters.
\<close>

record env =
  script_dir :: string
  yaml_files :: files
  py_int :: "string \<Rightarrow> int option"
  feature_dim :: "pyval \<Rightarrow> nat \<times> nat"
  text_num_classes :: "pyval \<Rightarrow> nat"

text \<open>Lines 71 to 95: the two datasets, by the branch \<^verbatim>\<open>args.tfrecords\<close> selects.\<close>

definition make_datasets ::
  "namespace \<Rightarrow> pyval \<Rightarrow> featurizer \<Rightarrow> featurizer \<Rightarrow> (dataset \<times> dataset) io" where
  "make_datasets args config sf tf =
     and_then (lift (getattr args ''tfrecords'')) (\<lambda>tfrecords.
     if truthy tfrecords then
       and_then (lift (dataset_config config ''train_paths'')) (\<lambda>train_paths.
       and_then (lift (dataset_config config ''tfrecords_dir'')) (\<lambda>train_dir.
       and_then (lift (learning_config config ''augmentations'')) (\<lambda>aug.
       let train_dataset =
             \<lparr>kind = ASRTFRecordDataset, data_paths = train_paths,
              tfrecords_dir = Some train_dir, speech_featurizer = sf, text_featurizer = tf,
              stage = ''train'', augmentations = Some aug, shuffle = True\<rparr> in
       and_then (emit (NewDataset train_dataset)) (\<lambda>_.
       and_then (lift (dataset_config config ''eval_paths'')) (\<lambda>eval_paths.
       and_then (lift (dataset_config config ''tfrecords_dir'')) (\<lambda>eval_dir.
       let eval_dataset =
             \<lparr>kind = ASRTFRecordDataset, data_paths = eval_paths,
              tfrecords_dir = Some eval_dir, speech_featurizer = sf, text_featurizer = tf,
              stage = ''eval'', augmentations = None, shuffle = False\<rparr> in
       and_then (emit (NewDataset eval_dataset)) (\<lambda>_.
       ret (train_dataset, eval_dataset))))))))
     else
       and_then (lift (dataset_config config ''eval_paths'')) (\<lambda>train_paths.
       and_then (lift (learning_config config ''augmentations'')) (\<lambda>aug.
       let train_dataset =
             \<lparr>kind = ASRSliceDataset, data_paths = train_paths,
              tfrecords_dir = None, speech_featurizer = sf, text_featurizer = tf,
              stage = ''train'', augmentations = Some aug, shuffle = True\<rparr> in
       and_then (emit (NewDataset train_dataset)) (\<lambda>_.
       and_then (lift (dataset_config config ''eval_paths'')) (\<lambda>eval_paths.
       let eval_dataset =
             \<lparr>kind = ASRSliceDataset, data_paths = eval_paths,
              tfrecords_dir = None, speech_featurizer = sf, text_featurizer = tf,
              stage = ''train'', augmentations = None, shuffle = True\<rparr> in
       and_then (emit (NewDataset eval_dataset)) (\<lambda>_.
       ret (train_dataset, eval_dataset)))))))"

text \<open>Lines 33 to 62: the session, the command line, the configuration, the featurizers.\<close>

definition setup_stage ::
  "env \<Rightarrow> occurrence list \<Rightarrow> (namespace \<times> pyval \<times> featurizer \<times> featurizer) io" where
  "setup_stage e argv =
     and_then (emit ClearSession) (\<lambda>_.
     and_then (lift (parse_args (py_int e) (parser (script_dir e)) argv)) (\<lambda>args.
     and_then (lift (getattr args ''config'')) (\<lambda>custom.
     and_then (lift (UserConfig (yaml_files e) (DEFAULT_YAML (script_dir e)) custom True)) (\<lambda>config.
     and_then (lift (config_getitem config ''speech_config'')) (\<lambda>speech_config.
     let sf = TFSpeechFeaturizer speech_config in
     and_then (emit (NewFeaturizer sf)) (\<lambda>_.
     and_then (lift (config_getitem config ''decoder_config'')) (\<lambda>decoder_config.
     let tf = TextFeaturizer decoder_config in
     and_then (emit (NewFeaturizer tf)) (\<lambda>_.
     ret (args, config, sf, tf)))))))))"

text \<open>Lines 66 to 69: the mixed-precision policy.\<close>

definition set_mixed_precision :: "namespace \<Rightarrow> unit io" where
  "set_mixed_precision args =
     and_then (lift (getattr args ''mixed_precision'')) (\<lambda>mixed_precision.
     if truthy mixed_precision then
       and_then (emit (SetPolicy ''mixed_float16'')) (\<lambda>_.
       emit (Print ''Enabled mixed precision training''))
     else ret ())"

text \<open>Lines 97 to 118: the trainer, the model, compiling, fitting and exporting.\<close>

fun config_of :: "featurizer \<Rightarrow> pyval" where
  "config_of (TFSpeechFeaturizer c) = c"
| "config_of (TextFeaturizer c) = c"

definition build_model :: "env \<Rightarrow> pyval \<Rightarrow> featurizer \<Rightarrow> featurizer \<Rightarrow> unit io" where
  "build_model e config sf tf =
     (case feature_dim e (config_of sf) of
        (f, c) \<Rightarrow>
          and_then (emit EnterScope) (\<lambda>_.
          with_exit ExitScope
            (and_then (lift (config_getitem config ''model_config'')) (\<lambda>arch_config.
             and_then (emit (NewModel [None, Some f, Some c] arch_config
                 (text_num_classes e (config_of tf))
                 ''deepspeech2'')) (\<lambda>_.
             emit (BuildModel [1, 50, f, c]))))))"

definition export_model :: "namespace \<Rightarrow> unit io" where
  "export_model args =
     and_then (lift (getattr args ''export'')) (\<lambda>export.
     if truthy export then
       and_then (lift (getattr args ''save_weights'')) (\<lambda>save_weights.
       if truthy save_weights then emit (SaveWeights export) else emit (Save export))
     else ret ())"

definition fit_stage ::
  "env \<Rightarrow> namespace \<Rightarrow> pyval \<Rightarrow> featurizer \<Rightarrow> featurizer \<Rightarrow> dataset \<times> dataset \<Rightarrow> unit io" where
  "fit_stage e args config sf tf ds =
     (case ds of (train_dataset, eval_dataset) \<Rightarrow>
        and_then (lift (learning_config config ''running_config'')) (\<lambda>running_config.
        and_then (lift (getattr args ''mixed_precision'')) (\<lambda>mixed_precision.
        and_then (emit (NewTrainer sf tf running_config mixed_precision)) (\<lambda>_.
        and_then (build_model e config sf tf) (\<lambda>_.
        and_then (lift (learning_config config ''optimizer_config'')) (\<lambda>optimizer_config.
        and_then (lift (getattr args ''max_ckpts'')) (\<lambda>max_ckpts.
        and_then (emit (Compile optimizer_config max_ckpts)) (\<lambda>_.
        and_then (lift (getattr args ''eval_train_ratio'')) (\<lambda>eval_train_ratio.
        and_then (emit (Fit train_dataset eval_dataset eval_train_ratio)) (\<lambda>_.
        export_model args))))))))))"

text \<open>Lines 66 to 118, run after the seed is set.\<close>

definition train_stage ::
  "env \<Rightarrow> namespace \<times> pyval \<times> featurizer \<times> featurizer \<Rightarrow> unit io" where
  "train_stage e st =
     (case st of (args, config, sf, tf) \<Rightarrow>
        and_then (set_mixed_precision args) (\<lambda>_.
        and_then (make_datasets args config sf tf) (fit_stage e args config sf tf)))"

text \<open>The script, with line 64 between its two halves.\<close>

definition main :: "env \<Rightarrow> occurrence list \<Rightarrow> unit io" where
  "main e argv =
     and_then (setup_stage e argv) (\<lambda>st.
     and_then (emit (SetSeed 2020)) (\<lambda>_.
     train_stage e st))"

section \<open>Reading a run\<close>

text \<open>
  The strings supplied for an attribute on a command line, in order: the arguments of the
  occurrences whose option string resolves to the action of that attribute. A parser is
  well formed when no two actions share an attribute or an option string (argparse
  refuses a conflicting option string).
\<close>

definition supplied :: "argument list \<Rightarrow> string \<Rightarrow> occurrence list \<Rightarrow> string list" where
  "supplied acts d argv =
     concat (map (\<lambda>(opt, arg).
       case resolve acts opt of
         Resolved a \<Rightarrow> (if dest a = d then (case arg of Some s \<Rightarrow> [s] | None \<Rightarrow> []) else [])
       | _ \<Rightarrow> []) argv)"

definition well_formed :: "argument list \<Rightarrow> bool" where
  "well_formed acts =
     (distinct (map dest acts) \<and> distinct (map fst (option_string_actions acts)))"

text \<open>The datasets a run constructs, in order: the train dataset first, then the eval one.\<close>

fun datasets :: "event list \<Rightarrow> dataset list" where
  "datasets [] = []"
| "datasets (NewDataset d # es) = d # datasets es"
| "datasets (_ # es) = datasets es"

text \<open>
  The global seed in effect when each event happens (nothing before the first
  \<^verbatim>\<open>tf.random.set_seed\<close>), and the events that construct a dataset or the model.
\<close>

fun seed_in_effect :: "int option \<Rightarrow> event list \<Rightarrow> (event \<times> int option) list" where
  "seed_in_effect s [] = []"
| "seed_in_effect s (SetSeed n # es) = (SetSeed n, s) # seed_in_effect (Some n) es"
| "seed_in_effect s (ev # es) = (ev, s) # seed_in_effect s es"

fun is_construction :: "event \<Rightarrow> bool" where
  "is_construction (NewDataset d) = True"
| "is_construction (NewModel shape arch n name) = True"
| "is_construction (BuildModel shape) = True"
| "is_construction _ = False"

text \<open>Every dataset of the list was constructed from the configuration's \<^verbatim>\<open>eval_paths\<close>.\<close>

definition from_eval_paths :: "pyval \<Rightarrow> dataset list \<Rightarrow> bool" where
  "from_eval_paths config ds =
     list_all (\<lambda>d. dataset_config config ''eval_paths'' = Inr (data_paths d)) ds"

section \<open>Text featurizer\<close>

text \<open>
  Modelled from the spec: \<^verbatim>\<open>TextFeaturizer\<close> (\<^verbatim>\<open>tiramisu_asr.featurizers.text_featurizers\<close>)
  is constructed on line 62 of the driver and on line 19 of \<^verbatim>\<open>tests/test_ctc.py\<close>; its
  code is not among the sources. The spec: the vocabulary is an ordered sequence of
  tokens; a designated blank symbol occupies a fixed position (start or end,
  configurable); the vocabulary file holds one token per line, the line index being the
  token id, less the blank's offset when the blank is at zero; \<^verbatim>\<open>encode\<close> maps a text to
  a sequence of ids and \<^verbatim>\<open>decode\<close> maps ids to a text, both by the vocabulary. A text is
  read character by character, each character a token; an unknown character or id has
  no image.
\<close>

record decoder_config =
  vocabulary :: "string list"
  blank_at_zero :: bool









section \<open>Checkpoint manager\<close>

text \<open>
  Modelled from the spec: the trainer (\<^verbatim>\<open>tiramisu_asr.runners.ctc_runners\<close>) receives
  \<^verbatim>\<open>max_to_keep=args.max_ckpts\<close> on line 110; its code is not among the sources. The
  spec: a checkpoint is created periodically during training and the checkpoints are
  pruned to a maximum retained count, the most recent ones retained. The checkpoint
  \<^verbatim>\<open>ckpt-n\<close> is the number \<open>n\<close>; the list holds the retained ones, oldest first.
\<close>

record ckpt_manager =
  max_to_keep :: nat
  save_counter :: nat
  checkpoints :: "nat list"

definition new_manager :: "nat \<Rightarrow> ckpt_manager" where
  "new_manager k = \<lparr>max_to_keep = k, save_counter = 0, checkpoints = []\<rparr>"

text \<open>Pruning deletes the oldest checkpoint while more than the maximum are retained.\<close>

fun sweep :: "nat \<Rightarrow> nat list \<Rightarrow> nat list" where
  "sweep k [] = []"
| "sweep k (c # cs) = (if k < length (c # cs) then sweep k cs else c # cs)"

definition save :: "ckpt_manager \<Rightarrow> ckpt_manager" where
  "save m =
     (let n = save_counter m + 1
      in m\<lparr>save_counter := n, checkpoints := sweep (max_to_keep m) (checkpoints m @ [n])\<rparr>)"

fun saves :: "nat \<Rightarrow> ckpt_manager \<Rightarrow> ckpt_manager" where
  "saves 0 m = m"
| "saves (Suc n) m = save (saves n m)"

section \<open>Sample inputs\<close>

definition sample_config :: "(string \<times> pyval) list" where
  "sample_config =
     [(''speech_config'', PDict [(''num_feature_bins'', PInt 80)]),
      (''decoder_config'', PDict [(''beam_width'', PInt 100)]),
      (''model_config'', PDict []),
      (''learning_config'', PDict
         [(''augmentations'', PNone),
          (''dataset_config'', PDict
             [(''train_paths'', PList [PStr ''train.tsv'']),
              (''eval_paths'', PList [PStr ''eval.tsv'']),
              (''tfrecords_dir'', PStr ''/tmp/records'')]),
          (''optimizer_config'', PDict []),
          (''running_config'', PDict [])])]"

text \<open>
  In the sample runs \<^verbatim>\<open>int\<close> is stood for by a reader of non-empty runs of ASCII digits;
  the only string these runs give it is \<^verbatim>\<open>3\<close>.
\<close>

definition digit_val :: "char \<Rightarrow> nat option" where
  "digit_val c =
     (let n = (of_char c :: nat) in if 48 \<le> n \<and> n \<le> 57 then Some (n - 48) else None)"

fun decimal :: "nat \<Rightarrow> string \<Rightarrow> nat option" where
  "decimal acc [] = Some acc"
| "decimal acc (c # cs) =
     (case digit_val c of None \<Rightarrow> None | Some d \<Rightarrow> decimal (10 * acc + d) cs)"

definition sample_int :: "string \<Rightarrow> int option" where
  "sample_int s = (if s = [] then None else map_option int (decimal 0 s))"

definition sample_env :: env where
  "sample_env =
     \<lparr>script_dir = ''/repo/examples/deepspeech2'',
      yaml_files = [''/repo/examples/deepspeech2/configs/vivos.yml'' \<mapsto> sample_config],
      py_int = sample_int,
      feature_dim = (\<lambda>_. (80, 1)),
      text_num_classes = (\<lambda>_. 95)\<rparr>"

definition sample_override :: "(string \<times> pyval) list" where
  "sample_override =
     [(''model_config'', PDict [(''rnn_units'', PInt 512)]),
      (''extra_config'', PBool True)]"

definition sample_files :: files where
  "sample_files = [''default.yml'' \<mapsto> sample_config, ''custom.yml'' \<mapsto> sample_override]"



section \<open>Command-line parsing: stored attributes\<close>

lemma option_string_actions_iff:
  "(s, a) \<in> set (option_string_actions acts) \<longleftrightarrow> a \<in> set acts \<and> s \<in> set (option_strings a)"
  by (auto simp: option_string_actions_def)

lemma resolve_in:
  assumes "resolve acts opt = Resolved a"
  shows "a \<in> set acts \<and> (\<exists>s \<in> set (option_strings a). take (length opt) s = opt)"
proof (cases "map_of (option_string_actions acts) opt")
  case (Some b)
  with assms have "b = a" by (simp add: resolve_def)
  with Some have "(opt, a) \<in> set (option_string_actions acts)" by (simp add: map_of_SomeD)
  then have "a \<in> set acts" and "opt \<in> set (option_strings a)"
    by (simp_all add: option_string_actions_iff)
  moreover have "take (length opt) opt = opt" by simp
  ultimately show ?thesis by blast
next
  case None
  let ?m = "filter (\<lambda>(s, a). take (length opt) s = opt) (option_string_actions acts)"
  from assms None obtain s where "?m = [(s, a)]"
    by (auto simp: resolve_def split: if_splits list.splits)
  then have "(s, a) \<in> set ?m" by simp
  then show ?thesis by (auto simp: option_string_actions_iff)
qed

lemma resolve_exact:
  assumes "distinct (map fst (option_string_actions acts))"
    and "a \<in> set acts" and "s \<in> set (option_strings a)"
  shows "resolve acts s = Resolved a"
proof -
  from assms(2,3) have "(s, a) \<in> set (option_string_actions acts)"
    by (simp add: option_string_actions_iff)
  with assms(1) have "map_of (option_string_actions acts) s = Some a"
    by (rule map_of_is_SomeI)
  then show ?thesis by (simp add: resolve_def)
qed

lemma consume_extras: "consume int_of acts argv ns True \<noteq> Inr ns'"
  by (induction argv arbitrary: ns)
     (auto split: resolution.splits arg_action.splits option.splits sum.splits)

lemma distinct_dest:
  "distinct (map dest acts) \<Longrightarrow> a \<in> set acts \<Longrightarrow> b \<in> set acts \<Longrightarrow> dest a = dest b \<Longrightarrow> a = b"
  by (metis distinct_map inj_onD)

lemma consume_attr:
  assumes wf: "distinct (map dest acts)" and a: "a \<in> set acts"
  shows "consume int_of acts argv ns0 ex = Inr ns \<Longrightarrow>
     (case rev (supplied acts (dest a) argv) of
        [] \<Rightarrow> ns (dest a) = ns0 (dest a)
      | s # _ \<Rightarrow> \<exists>v. convert int_of (type_f a) s = Inr v \<and> ns (dest a) = Some v)"
proof (induction argv arbitrary: ns0 ex)
  case Nil
  then show ?case by (simp add: supplied_def split: if_splits)
next
  case (Cons x rest)
  obtain opt arg where x: "x = (opt, arg)" by (cases x)
  show ?case
  proof (cases "resolve acts opt")
    case Unknown
    with Cons.prems x show ?thesis by (simp add: consume_extras)
  next
    case Ambiguous
    with Cons.prems x show ?thesis by simp
  next
    case (Resolved b)
    with Cons.prems x obtain s v where
      arg: "arg = Some s" and v: "convert int_of (type_f b) s = Inr v"
      and rest: "consume int_of acts rest (ns0(dest b \<mapsto> v)) ex = Inr ns"
      by (auto split: arg_action.splits option.splits sum.splits)
    note IH = Cons.IH [OF rest]
    from resolve_in [OF Resolved] have bin: "b \<in> set acts" by simp
    have sup: "rev (supplied acts (dest a) (x # rest)) =
        rev (supplied acts (dest a) rest) @ (if dest b = dest a then [s] else [])"
      by (simp add: supplied_def x Resolved arg)
    show ?thesis
    proof (cases "rev (supplied acts (dest a) rest)")
      case Nil
      from IH Nil have n: "ns (dest a) = (ns0(dest b \<mapsto> v)) (dest a)" by simp
      show ?thesis
      proof (cases "dest b = dest a")
        case True
        with wf a bin have ab: "b = a" using distinct_dest by metis
        from n ab have "ns (dest a) = Some v" by simp
        moreover from v ab have "convert int_of (type_f a) s = Inr v" by simp
        moreover from sup Nil True
        have "rev (supplied acts (dest a) (x # rest)) = [s]" by simp
        ultimately show ?thesis by simp
      next
        case False
        with n have "ns (dest a) = ns0 (dest a)" by simp
        moreover from sup Nil False
        have "rev (supplied acts (dest a) (x # rest)) = []" by simp
        ultimately show ?thesis by simp
      qed
    next
      case (Cons s' ss)
      with IH have "\<exists>v. convert int_of (type_f a) s' = Inr v \<and> ns (dest a) = Some v"
        by simp
      moreover from sup Cons
      have "rev (supplied acts (dest a) (x # rest)) =
          s' # ss @ (if dest b = dest a then [s] else [])"
        by simp
      ultimately show ?thesis by simp
    qed
  qed
qed

lemma foldl_defaults_other:
  "k \<notin> dest ` set acts \<Longrightarrow>
   foldl (\<lambda>ns a. case default_v a of None \<Rightarrow> ns | Some v \<Rightarrow> ns(dest a \<mapsto> v)) m acts k = m k"
  by (induction acts arbitrary: m) (auto split: option.splits)

lemma foldl_defaults_attr:
  "distinct (map dest acts) \<Longrightarrow> a \<in> set acts \<Longrightarrow> m (dest a) = None \<Longrightarrow>
   foldl (\<lambda>ns a. case default_v a of None \<Rightarrow> ns | Some v \<Rightarrow> ns(dest a \<mapsto> v)) m acts (dest a) =
     default_v a"
proof (induction acts arbitrary: m)
  case Nil
  then show ?case by simp
next
  case (Cons x xs)
  let ?f = "\<lambda>ns a. case default_v a of None \<Rightarrow> ns | Some v \<Rightarrow> ns(dest a \<mapsto> v)"
  show ?case
  proof (cases "a \<in> set xs")
    case True
    with Cons.prems have "dest x \<noteq> dest a" by auto
    with Cons.prems have "(?f m x) (dest a) = None" by (simp split: option.splits)
    with Cons.IH [of "?f m x"] Cons.prems True show ?thesis by simp
  next
    case False
    with Cons.prems have ax: "a = x" and nx: "dest x \<notin> dest ` set xs" by auto
    have "foldl ?f (?f m x) xs (dest x) = (?f m x) (dest x)"
      using nx by (rule foldl_defaults_other)
    also have "\<dots> = default_v x"
      using Cons.prems(3) ax by (simp split: option.splits)
    finally show ?thesis using ax by (simp only: foldl_Cons)
  qed
qed

lemma defaults_attr:
  "well_formed acts \<Longrightarrow> a \<in> set acts \<Longrightarrow> defaults acts (dest a) = default_v a"
  by (simp add: defaults_def well_formed_def foldl_defaults_attr)

lemma parse_args_consume:
  "parse_args int_of acts argv = Inr ns \<Longrightarrow> consume int_of acts argv (defaults acts) False = Inr ns"
  by (simp add: parse_args_def split: if_splits)

lemma parse_args_attr:
  assumes "well_formed acts" and "a \<in> set acts" and "parse_args int_of acts argv = Inr ns"
  shows "case rev (supplied acts (dest a) argv) of
        [] \<Rightarrow> ns (dest a) = default_v a
      | s # _ \<Rightarrow> \<exists>v. convert int_of (type_f a) s = Inr v \<and> ns (dest a) = Some v"
proof -
  from assms(1) have d: "distinct (map dest acts)" by (simp add: well_formed_def)
  from consume_attr [OF d assms(2) parse_args_consume [OF assms(3)]]
  show ?thesis by (simp add: defaults_attr [OF assms(1,2)] split: list.splits)
qed

lemma parse_args_has_attr:
  assumes "well_formed acts" and "a \<in> set acts" and "default_v a = Some dv"
    and "parse_args int_of acts argv = Inr ns"
  shows "\<exists>v. getattr ns (dest a) = Inr v"
  using parse_args_attr [OF assms(1,2,4)] assms(3)
  by (auto simp: getattr_def split: list.splits)

lemma well_formed_parser: "well_formed (parser d)"
  by (simp add: well_formed_def parser_def ArgumentParser_def help_action_def add_argument_def
      dest_of_def option_string_actions_def)

lemma bool_flag_action:
  "flag \<in> {''mixed_precision'', ''save_weights'', ''tfrecords''} \<Longrightarrow>
   \<exists>a \<in> set (parser d). option_strings a = [''--'' @ flag] \<and> dest a = flag \<and>
      type_f a = Some Type_bool \<and> default_v a = Some (PBool False)"
  by (auto simp: parser_def add_argument_def dest_of_def)

lemma parser_attrs:
  assumes "parse_args int_of (parser d) argv = Inr ns"
    and "k \<in> {''config'', ''export'', ''mixed_precision'', ''save_weights'', ''max_ckpts'',
               ''eval_train_ratio'', ''tfrecords''}"
  shows "\<exists>v. getattr ns k = Inr v"
proof -
  from assms(2) have "\<exists>a \<in> set (parser d). dest a = k \<and> (\<exists>dv. default_v a = Some dv)"
    by (auto simp: parser_def add_argument_def dest_of_def)
  then obtain a dv where "a \<in> set (parser d)" "dest a = k" "default_v a = Some dv" by blast
  with parse_args_has_attr [OF well_formed_parser _ _ assms(1)] show ?thesis by blast
qed

lemmas parser_defs =
  parser_def ArgumentParser_def help_action_def add_argument_def dest_of_def
  option_string_actions_def resolve_def defaults_def

lemma parse_tfrecords_False:
  "parse_args int_of (parser d) [(''--tfrecords'', Some ''False'')] =
     Inr ((defaults (parser d))(''tfrecords'' \<mapsto> PBool True))"
  by (simp add: parse_args_def parser_defs py_bool_def)

lemma parse_empty_tfrecords:
  "parse_args int_of (parser d) [] = Inr args \<Longrightarrow> getattr args ''tfrecords'' = Inr (PBool False)"
  by (auto simp: parse_args_def parser_defs getattr_def)

section \<open>Traces and outcomes of the driver\<close>

lemma trace_and_then:
  "trace (and_then m f) =
     trace m @ (case outcome m of Inl e \<Rightarrow> [] | Inr x \<Rightarrow> trace (f x))"
  by (cases m) (auto simp: trace_def outcome_def and_then_def split: sum.splits prod.splits)

lemma outcome_and_then:
  "outcome (and_then m f) = (case outcome m of Inl e \<Rightarrow> Inl e | Inr x \<Rightarrow> outcome (f x))"
  by (cases m) (auto simp: outcome_def and_then_def split: sum.splits prod.splits)

lemma trace_simps:
  "trace (emit ev) = [ev]" "trace (lift r) = []" "trace (ret x) = []"
  "trace (with_exit ev m) = trace m @ [ev]"
  by (simp_all add: trace_def emit_def lift_def ret_def with_exit_def split: prod.splits)

lemma outcome_simps:
  "outcome (emit ev) = Inr ()" "outcome (lift r) = r" "outcome (ret x) = Inr x"
  "outcome (with_exit ev m) = outcome m"
  by (simp_all add: outcome_def emit_def lift_def ret_def with_exit_def split: prod.splits)

lemma datasets_append: "datasets (xs @ ys) = datasets xs @ datasets ys"
  by (induction xs rule: datasets.induct) simp_all

lemma lift_then_Inr:
  "outcome (and_then (lift r) f) = Inr y \<longleftrightarrow> (\<exists>x. r = Inr x \<and> outcome (f x) = Inr y)"
  by (cases r) (simp_all add: outcome_and_then outcome_simps)

lemma emit_then: "outcome (and_then (emit ev) f) = outcome (f ())"
  by (simp add: outcome_and_then outcome_simps)

lemma trace_lift_then:
  "trace (and_then (lift r) f) = (case r of Inl e \<Rightarrow> [] | Inr x \<Rightarrow> trace (f x))"
  by (simp add: trace_and_then trace_simps outcome_simps)

lemma trace_emit_then: "trace (and_then (emit ev) f) = ev # trace (f ())"
  by (simp add: trace_and_then trace_simps outcome_simps)

lemma make_datasets_result:
  assumes "outcome (make_datasets args config sf tf) = Inr (train_dataset, eval_dataset)"
  shows "\<exists>t. getattr args ''tfrecords'' = Inr t \<and>
     dataset_config config ''eval_paths'' = Inr (data_paths eval_dataset) \<and>
     stage train_dataset = ''train'' \<and> shuffle train_dataset \<and>
     (if truthy t then
        kind train_dataset = ASRTFRecordDataset \<and> kind eval_dataset = ASRTFRecordDataset \<and>
        dataset_config config ''train_paths'' = Inr (data_paths train_dataset) \<and>
        stage eval_dataset = ''eval'' \<and> \<not> shuffle eval_dataset
      else
        kind train_dataset = ASRSliceDataset \<and> kind eval_dataset = ASRSliceDataset \<and>
        dataset_config config ''eval_paths'' = Inr (data_paths train_dataset) \<and>
        stage eval_dataset = ''train'' \<and> shuffle eval_dataset)"
proof -
  from assms obtain t where t: "getattr args ''tfrecords'' = Inr t"
    unfolding make_datasets_def lift_then_Inr by blast
  show ?thesis
  proof (cases "truthy t")
    case True
    with assms t show ?thesis
      unfolding make_datasets_def
      by (simp add: lift_then_Inr emit_then outcome_simps Let_def) fastforce
  next
    case False
    with assms t show ?thesis
      unfolding make_datasets_def
      by (simp add: lift_then_Inr emit_then outcome_simps Let_def) fastforce
  qed
qed

lemma make_datasets_trace:
  "datasets (trace (make_datasets args config sf tf)) = [x, y] \<longleftrightarrow>
   outcome (make_datasets args config sf tf) = Inr (x, y)"
proof (cases "getattr args ''tfrecords''")
  case (Inl err)
  then show ?thesis
    unfolding make_datasets_def
    by (simp add: trace_lift_then outcome_and_then outcome_simps)
next
  case (Inr t)
  show ?thesis
  proof (cases "truthy t")
    case True
    with Inr show ?thesis
      unfolding make_datasets_def
      by (simp add: trace_lift_then trace_emit_then trace_simps outcome_and_then outcome_simps
          Let_def split: sum.splits) 
  next
    case False
    with Inr show ?thesis
      unfolding make_datasets_def
      by (simp add: trace_lift_then trace_emit_then trace_simps outcome_and_then outcome_simps
          Let_def split: sum.splits)
  qed
qed

lemma set_trace_and_then:
  "set (trace (and_then m f)) =
     set (trace m) \<union> (case outcome m of Inl e \<Rightarrow> {} | Inr x \<Rightarrow> set (trace (f x)))"
  by (simp add: trace_and_then split: sum.splits)

lemma set_trace_lift_then:
  "set (trace (and_then (lift r) f)) = (case r of Inl e \<Rightarrow> {} | Inr x \<Rightarrow> set (trace (f x)))"
  by (simp add: trace_lift_then split: sum.splits)

lemma setup_trace:
  "set (trace (setup_stage e argv)) \<subseteq> insert ClearSession (range NewFeaturizer)"
  unfolding setup_stage_def
  by (auto simp: set_trace_lift_then trace_emit_then trace_simps Let_def split: sum.splits)

lemma setup_result:
  assumes "outcome (setup_stage e argv) = Inr (args, config, sf, tf)"
  shows "parse_args (py_int e) (parser (script_dir e)) argv = Inr args \<and>
     (\<exists>custom. getattr args ''config'' = Inr custom \<and>
        UserConfig (yaml_files e) (DEFAULT_YAML (script_dir e)) custom True = Inr config)"
  using assms unfolding setup_stage_def
  by (simp add: lift_then_Inr emit_then outcome_simps Let_def) fastforce

lemma mixed_precision_trace:
  "set (trace (set_mixed_precision args)) \<subseteq>
     {SetPolicy ''mixed_float16'', Print ''Enabled mixed precision training''}"
  unfolding set_mixed_precision_def
  by (auto simp: set_trace_lift_then trace_emit_then trace_simps split: sum.splits)

lemma make_datasets_events:
  "set (trace (make_datasets args config sf tf)) \<subseteq> range NewDataset"
  unfolding make_datasets_def
  by (auto simp: set_trace_lift_then trace_emit_then trace_simps Let_def split: sum.splits)

lemma build_model_events:
  "ev \<in> set (trace (build_model e config sf tf)) \<Longrightarrow>
     (\<forall>n. ev \<noteq> SetSeed n) \<and> (\<forall>d. ev \<noteq> NewDataset d)"
  unfolding build_model_def
  by (auto simp: set_trace_lift_then trace_emit_then trace_simps split: sum.splits prod.splits)

lemma export_model_events:
  "ev \<in> set (trace (export_model args)) \<Longrightarrow>
     (\<forall>n. ev \<noteq> SetSeed n) \<and> (\<forall>d. ev \<noteq> NewDataset d)"
  unfolding export_model_def
  by (auto simp: set_trace_lift_then trace_emit_then trace_simps split: sum.splits if_splits)

lemma fit_stage_events:
  "ev \<in> set (trace (fit_stage e args config sf tf ds)) \<Longrightarrow>
     (\<forall>n. ev \<noteq> SetSeed n) \<and> (\<forall>d. ev \<noteq> NewDataset d)"
  unfolding fit_stage_def
  by (auto simp: set_trace_lift_then set_trace_and_then trace_emit_then trace_simps
      split: sum.splits prod.splits dest: build_model_events export_model_events)

lemma datasets_no_new: "(\<forall>d. NewDataset d \<notin> set xs) \<Longrightarrow> datasets xs = []"
  by (induction xs rule: datasets.induct) auto

lemma main_trace:
  "trace (main e argv) =
     trace (setup_stage e argv) @
     (case outcome (setup_stage e argv) of
        Inl err \<Rightarrow> []
      | Inr st \<Rightarrow> SetSeed 2020 # trace (train_stage e st))"
  unfolding main_def
  by (simp add: trace_and_then trace_simps outcome_simps split: sum.splits)

lemma train_stage_trace:
  "trace (train_stage e (args, config, sf, tf)) =
     trace (set_mixed_precision args) @
     (case outcome (set_mixed_precision args) of
        Inl err \<Rightarrow> []
      | Inr u \<Rightarrow>
          trace (make_datasets args config sf tf) @
          (case outcome (make_datasets args config sf tf) of
             Inl err \<Rightarrow> []
           | Inr ds \<Rightarrow> trace (fit_stage e args config sf tf ds)))"
  unfolding train_stage_def
  by (simp add: trace_and_then split: sum.splits)

lemma setup_datasets: "datasets (trace (setup_stage e argv)) = []"
  using setup_trace [of e argv] by (intro datasets_no_new) auto

lemma mixed_precision_datasets: "datasets (trace (set_mixed_precision args)) = []"
  using mixed_precision_trace [of args] by (intro datasets_no_new) auto

lemma fit_stage_datasets: "datasets (trace (fit_stage e args config sf tf ds)) = []"
  using fit_stage_events [of _ e args config sf tf ds] by (intro datasets_no_new) blast

lemma train_stage_datasets:
  "datasets (trace (train_stage e (args, config, sf, tf))) =
     (case outcome (set_mixed_precision args) of
        Inl err \<Rightarrow> []
      | Inr u \<Rightarrow> datasets (trace (make_datasets args config sf tf)))"
  by (simp add: train_stage_trace datasets_append mixed_precision_datasets fit_stage_datasets
      split: sum.splits)

lemma main_datasets:
  assumes "datasets (trace (main e argv)) = [x, y]"
  shows "\<exists>args config sf tf. outcome (setup_stage e argv) = Inr (args, config, sf, tf) \<and>
     outcome (make_datasets args config sf tf) = Inr (x, y)"
proof (cases "outcome (setup_stage e argv)")
  case (Inl err)
  with assms show ?thesis by (simp add: main_trace datasets_append setup_datasets)
next
  case (Inr st)
  obtain args config sf tf where st: "st = (args, config, sf, tf)" by (cases st)
  from assms Inr st have "datasets (trace (train_stage e (args, config, sf, tf))) = [x, y]"
    by (simp add: main_trace datasets_append setup_datasets)
  then have "datasets (trace (make_datasets args config sf tf)) = [x, y]"
    by (simp add: train_stage_datasets split: sum.splits)
  then have "outcome (make_datasets args config sf tf) = Inr (x, y)"
    by (simp add: make_datasets_trace)
  with Inr st show ?thesis by simp
qed

lemma train_stage_no_seed: "SetSeed n \<notin> set (trace (train_stage e st))"
proof -
  obtain args config sf tf where st: "st = (args, config, sf, tf)" by (cases st)
  have a: "SetSeed n \<notin> set (trace (set_mixed_precision args))"
    using mixed_precision_trace [of args] by auto
  have b: "SetSeed n \<notin> set (trace (make_datasets args config sf tf))"
    using make_datasets_events [of args config sf tf] by auto
  have c: "SetSeed n \<notin> set (trace (fit_stage e args config sf tf ds))" for ds
    using fit_stage_events [of "SetSeed n" e args config sf tf ds] by blast
  show ?thesis unfolding st train_stage_trace using a b c
    by (simp split: sum.splits)
qed

lemma seed_in_effect_no_seed:
  "(\<forall>n. SetSeed n \<notin> set xs) \<Longrightarrow> seed_in_effect s xs = map (\<lambda>ev. (ev, s)) xs"
  by (induction s xs rule: seed_in_effect.induct) auto

lemma seed_in_effect_append:
  "(\<forall>n. SetSeed n \<notin> set xs) \<Longrightarrow>
   seed_in_effect s (xs @ ys) = map (\<lambda>ev. (ev, s)) xs @ seed_in_effect s ys"
  by (induction s xs rule: seed_in_effect.induct) auto

lemma main_seed_in_effect:
  "seed_in_effect None (trace (main e argv)) =
     map (\<lambda>ev. (ev, None)) (trace (setup_stage e argv)) @
     (case outcome (setup_stage e argv) of
        Inl err \<Rightarrow> []
      | Inr st \<Rightarrow> (SetSeed 2020, None) # map (\<lambda>ev. (ev, Some 2020)) (trace (train_stage e st)))"
proof -
  have pre: "\<forall>n. SetSeed n \<notin> set (trace (setup_stage e argv))"
    using setup_trace [of e argv] by auto
  show ?thesis
    unfolding main_trace seed_in_effect_append [OF pre]
    by (simp add: seed_in_effect_no_seed train_stage_no_seed split: sum.splits)
qed

lemma setup_no_construction:
  "ev \<in> set (trace (setup_stage e argv)) \<Longrightarrow> \<not> is_construction ev"
  using setup_trace [of e argv] by auto

lemma main_seeded:
  "(ev, s) \<in> set (seed_in_effect None (trace (main e argv))) \<Longrightarrow> is_construction ev \<Longrightarrow>
   s = Some 2020"
  unfolding main_seed_in_effect
  by (auto split: sum.splits dest: setup_no_construction)

section \<open>The sample run\<close>

lemmas run_defs =
  main_def setup_stage_def train_stage_def fit_stage_def set_mixed_precision_def make_datasets_def
  build_model_def export_model_def and_then_def emit_def lift_def ret_def with_exit_def
  trace_def outcome_def parse_args_def parser_def ArgumentParser_def help_action_def
  add_argument_def dest_of_def defaults_def option_string_actions_def resolve_def
  getattr_def UserConfig_def merge_settings_def config_getitem_def
  learning_config_def dataset_config_def bind_r_def DEFAULT_YAML_def path_join_def py_bool_def
  sample_env_def sample_config_def Let_def

lemma sample_run_default:
  "datasets (trace (main sample_env [])) =
     [\<lparr>kind = ASRSliceDataset, data_paths = PList [PStr ''eval.tsv''], tfrecords_dir = None,
       speech_featurizer = TFSpeechFeaturizer (PDict [(''num_feature_bins'', PInt 80)]),
       text_featurizer = TextFeaturizer (PDict [(''beam_width'', PInt 100)]),
       stage = ''train'', augmentations = Some PNone, shuffle = True\<rparr>,
      \<lparr>kind = ASRSliceDataset, data_paths = PList [PStr ''eval.tsv''], tfrecords_dir = None,
       speech_featurizer = TFSpeechFeaturizer (PDict [(''num_feature_bins'', PInt 80)]),
       text_featurizer = TextFeaturizer (PDict [(''beam_width'', PInt 100)]),
       stage = ''train'', augmentations = None, shuffle = True\<rparr>]"
  by (simp add: run_defs)

lemma sample_run_tfrecords:
  "datasets (trace (main sample_env [(''--tfrecords'', Some ''True'')])) =
     [\<lparr>kind = ASRTFRecordDataset, data_paths = PList [PStr ''train.tsv''],
       tfrecords_dir = Some (PStr ''/tmp/records''),
       speech_featurizer = TFSpeechFeaturizer (PDict [(''num_feature_bins'', PInt 80)]),
       text_featurizer = TextFeaturizer (PDict [(''beam_width'', PInt 100)]),
       stage = ''train'', augmentations = Some PNone, shuffle = True\<rparr>,
      \<lparr>kind = ASRTFRecordDataset, data_paths = PList [PStr ''eval.tsv''],
       tfrecords_dir = Some (PStr ''/tmp/records''),
       speech_featurizer = TFSpeechFeaturizer (PDict [(''num_feature_bins'', PInt 80)]),
       text_featurizer = TextFeaturizer (PDict [(''beam_width'', PInt 100)]),
       stage = ''eval'', augmentations = None, shuffle = False\<rparr>]"
  by (simp add: run_defs)

lemma sample_user_config:
  "UserConfig (yaml_files sample_env) (DEFAULT_YAML (script_dir sample_env))
     (PStr (DEFAULT_YAML (script_dir sample_env))) True = Inr (PDict sample_config)"
  by (simp add: UserConfig_def merge_settings_def DEFAULT_YAML_def path_join_def sample_env_def
      sample_config_def)

lemma sample_run_seed:
  "seed_in_effect None (trace (main sample_env [])) ! 4 =
     (NewDataset
       \<lparr>kind = ASRSliceDataset, data_paths = PList [PStr ''eval.tsv''], tfrecords_dir = None,
        speech_featurizer = TFSpeechFeaturizer (PDict [(''num_feature_bins'', PInt 80)]),
        text_featurizer = TextFeaturizer (PDict [(''beam_width'', PInt 100)]),
        stage = ''train'', augmentations = Some PNone, shuffle = True\<rparr>, Some 2020) \<and>
   4 < length (seed_in_effect None (trace (main sample_env [])))"
  by (simp add: run_defs)
section \<open>The boolean flags\<close>

text \<open>
  Claim C5. The flags \<^verbatim>\<open>--mixed_precision\<close>, \<^verbatim>\<open>--save_weights\<close> and \<^verbatim>\<open>--tfrecords\<close> are
  declared with \<^verbatim>\<open>type=bool\<close>. On every command line the parser accepts, the attribute
  of such a flag is \<open>False\<close> when the flag is omitted, and otherwise the non-emptiness of
  the last string supplied for it: any non-empty string, the literal \<^verbatim>\<open>False\<close> included,
  gives \<open>True\<close>, and only the empty string gives \<open>False\<close>. The strings supplied for the
  flag are those given with its option string or with an abbreviation that resolves to
  it.
\<close>

theorem bool_flag_true_for_any_nonempty_string:
  assumes "parse_args int_of (parser d) argv = Inr ns"
    and "flag \<in> {''mixed_precision'', ''save_weights'', ''tfrecords''}"
  shows "getattr ns flag =
       Inr (PBool (case rev (supplied (parser d) flag argv) of [] \<Rightarrow> False | s # _ \<Rightarrow> s \<noteq> [])) \<and>
     (\<exists>a. resolve (parser d) (''--'' @ flag) = Resolved a \<and> dest a = flag)"
proof -
  from bool_flag_action [OF assms(2)] obtain a where
    a: "a \<in> set (parser d)" "option_strings a = [''--'' @ flag]" "dest a = flag"
       "type_f a = Some Type_bool" "default_v a = Some (PBool False)"
    by blast
  from parse_args_attr [OF well_formed_parser a(1) assms(1)] a(3-5)
  have "getattr ns flag =
       Inr (PBool (case rev (supplied (parser d) flag argv) of [] \<Rightarrow> False | s # _ \<Rightarrow> s \<noteq> []))"
    by (auto simp: getattr_def py_bool_def split: list.splits)
  moreover have "resolve (parser d) (''--'' @ flag) = Resolved a"
    using well_formed_parser [of d] a(1,2) by (intro resolve_exact) (simp_all add: well_formed_def)
  ultimately show ?thesis using a(3) by blast
qed

theorem bool_flag_true_for_any_nonempty_string_witness:
  "parse_args sample_int (parser ''/repo'') [(''--tfrecords'', Some ''False'')] =
     Inr ((defaults (parser ''/repo''))(''tfrecords'' \<mapsto> PBool True)) \<and>
   ''tfrecords'' \<in> {''mixed_precision'', ''save_weights'', ''tfrecords''} \<and>
   supplied (parser ''/repo'') ''tfrecords'' [(''--tfrecords'', Some ''False'')] = [''False''] \<and>
   getattr ((defaults (parser ''/repo''))(''tfrecords'' \<mapsto> PBool True)) ''tfrecords'' =
     Inr (PBool True)"
proof -
  have h1: "parse_args sample_int (parser ''/repo'') [(''--tfrecords'', Some ''False'')] =
     Inr ((defaults (parser ''/repo''))(''tfrecords'' \<mapsto> PBool True))"
    by (rule parse_tfrecords_False)
  have h2: "''tfrecords'' \<in> {''mixed_precision'', ''save_weights'', ''tfrecords''}"
    by simp
  have h3: "supplied (parser ''/repo'') ''tfrecords'' [(''--tfrecords'', Some ''False'')] =
      [''False'']"
    by (simp add: supplied_def parser_defs)
  from bool_flag_true_for_any_nonempty_string [OF h1 h2] h1 h2 h3 show ?thesis
    by simp
qed

section \<open>The declared flags and their defaults\<close>








section \<open>The branches of the dataset construction\<close>

lemma setup_attrs:
  assumes "outcome (setup_stage e argv) = Inr (args, config, sf, tf)"
    and "k \<in> {''config'', ''export'', ''mixed_precision'', ''save_weights'', ''max_ckpts'',
               ''eval_train_ratio'', ''tfrecords''}"
  shows "\<exists>v. getattr args k = Inr v"
  using setup_result [OF assms(1)] parser_attrs [OF _ assms(2)] by blast

lemma mixed_precision_outcome:
  "getattr args ''mixed_precision'' = Inr m \<Longrightarrow> outcome (set_mixed_precision args) = Inr ()"
  unfolding set_mixed_precision_def
  by (simp add: outcome_and_then outcome_simps)

lemma main_datasets_of_setup:
  assumes "outcome (setup_stage e argv) = Inr (args, config, sf, tf)"
  shows "datasets (trace (main e argv)) = datasets (trace (make_datasets args config sf tf))"
proof -
  from setup_attrs [OF assms, of "''mixed_precision''"] obtain m where
    "getattr args ''mixed_precision'' = Inr m"
    by auto
  then have "outcome (set_mixed_precision args) = Inr ()" by (rule mixed_precision_outcome)
  with assms show ?thesis
    by (simp add: main_trace datasets_append setup_datasets train_stage_datasets)
qed

lemma make_datasets_slice:
  assumes "getattr args ''tfrecords'' = Inr t" and "\<not> truthy t"
    and "dataset_config config ''eval_paths'' = Inr eval_paths"
    and "learning_config config ''augmentations'' = Inr aug"
  shows "datasets (trace (make_datasets args config sf tf)) =
     [\<lparr>kind = ASRSliceDataset, data_paths = eval_paths, tfrecords_dir = None,
       speech_featurizer = sf, text_featurizer = tf, stage = ''train'',
       augmentations = Some aug, shuffle = True\<rparr>,
      \<lparr>kind = ASRSliceDataset, data_paths = eval_paths, tfrecords_dir = None,
       speech_featurizer = sf, text_featurizer = tf, stage = ''train'',
       augmentations = None, shuffle = True\<rparr>]"
  using assms unfolding make_datasets_def
  by (simp add: trace_lift_then trace_emit_then trace_simps Let_def)

lemma make_datasets_tfrecords:
  assumes "getattr args ''tfrecords'' = Inr t" and "truthy t"
    and "dataset_config config ''eval_paths'' = Inr eval_paths"
    and "learning_config config ''augmentations'' = Inr aug"
    and "dataset_config config ''train_paths'' = Inr train_paths"
    and "dataset_config config ''tfrecords_dir'' = Inr dir"
  shows "datasets (trace (make_datasets args config sf tf)) =
     [\<lparr>kind = ASRTFRecordDataset, data_paths = train_paths, tfrecords_dir = Some dir,
       speech_featurizer = sf, text_featurizer = tf, stage = ''train'',
       augmentations = Some aug, shuffle = True\<rparr>,
      \<lparr>kind = ASRTFRecordDataset, data_paths = eval_paths, tfrecords_dir = Some dir,
       speech_featurizer = sf, text_featurizer = tf, stage = ''eval'',
       augmentations = None, shuffle = False\<rparr>]"
  using assms unfolding make_datasets_def
  by (simp add: trace_lift_then trace_emit_then trace_simps Let_def)

lemma sample_setup_default:
  "outcome (setup_stage sample_env []) =
     Inr (defaults (parser (script_dir sample_env)), PDict sample_config,
          TFSpeechFeaturizer (PDict [(''num_feature_bins'', PInt 80)]),
          TextFeaturizer (PDict [(''beam_width'', PInt 100)]))"
  by (simp add: run_defs)

lemma sample_setup_tfrecords:
  "outcome (setup_stage sample_env [(''--tfrecords'', Some ''True'')]) =
     Inr ((defaults (parser (script_dir sample_env)))(''tfrecords'' \<mapsto> PBool True),
          PDict sample_config,
          TFSpeechFeaturizer (PDict [(''num_feature_bins'', PInt 80)]),
          TextFeaturizer (PDict [(''beam_width'', PInt 100)]))"
  by (simp add: run_defs)

lemma sample_lookups:
  "dataset_config (PDict sample_config) ''eval_paths'' = Inr (PList [PStr ''eval.tsv''])"
  "learning_config (PDict sample_config) ''augmentations'' = Inr PNone"
  "dataset_config (PDict sample_config) ''train_paths'' = Inr (PList [PStr ''train.tsv''])"
  "dataset_config (PDict sample_config) ''tfrecords_dir'' = Inr (PStr ''/tmp/records'')"
  by (simp_all add: dataset_config_def learning_config_def config_getitem_def bind_r_def
      sample_config_def)

text \<open>
  Claim C9. In every run that gets to the dataset construction and finds the paths it
  reads in the configuration, the branch the parsed \<^verbatim>\<open>--tfrecords\<close> attribute selects
  builds these two datasets: in the branch without tfrecords (lines 84 to 95) two
  \<^verbatim>\<open>ASRSliceDataset\<close>s, the eval one with stage \<^verbatim>\<open>train\<close> and \<^verbatim>\<open>shuffle=True\<close>; in the
  tfrecords branch (lines 72 to 82) two \<^verbatim>\<open>ASRTFRecordDataset\<close>s, the eval one with stage
  \<^verbatim>\<open>eval\<close> and \<^verbatim>\<open>shuffle=False\<close>. Conversely, whenever a run has constructed two
  datasets, the second has the kind, stage and shuffling of its branch. The two branches
  thus disagree on the stage label and on the shuffling of the eval dataset.
\<close>

theorem eval_dataset_stage_by_branch:
  "(\<forall>args config sf tf eval_paths aug.
      outcome (setup_stage e argv) = Inr (args, config, sf, tf) \<and>
      dataset_config config ''eval_paths'' = Inr eval_paths \<and>
      learning_config config ''augmentations'' = Inr aug \<longrightarrow>
      (\<exists>t. getattr args ''tfrecords'' = Inr t \<and>
        (\<not> truthy t \<longrightarrow>
           datasets (trace (main e argv)) =
             [\<lparr>kind = ASRSliceDataset, data_paths = eval_paths, tfrecords_dir = None,
               speech_featurizer = sf, text_featurizer = tf, stage = ''train'',
               augmentations = Some aug, shuffle = True\<rparr>,
              \<lparr>kind = ASRSliceDataset, data_paths = eval_paths, tfrecords_dir = None,
               speech_featurizer = sf, text_featurizer = tf, stage = ''train'',
               augmentations = None, shuffle = True\<rparr>]) \<and>
        (truthy t \<longrightarrow>
           (\<forall>train_paths dir.
              dataset_config config ''train_paths'' = Inr train_paths \<and>
              dataset_config config ''tfrecords_dir'' = Inr dir \<longrightarrow>
              datasets (trace (main e argv)) =
                [\<lparr>kind = ASRTFRecordDataset, data_paths = train_paths, tfrecords_dir = Some dir,
                  speech_featurizer = sf, text_featurizer = tf, stage = ''train'',
                  augmentations = Some aug, shuffle = True\<rparr>,
                 \<lparr>kind = ASRTFRecordDataset, data_paths = eval_paths, tfrecords_dir = Some dir,
                  speech_featurizer = sf, text_featurizer = tf, stage = ''eval'',
                  augmentations = None, shuffle = False\<rparr>])))) \<and>
   (\<forall>train_dataset eval_dataset.
      datasets (trace (main e argv)) = [train_dataset, eval_dataset] \<longrightarrow>
      (\<exists>args t. parse_args (py_int e) (parser (script_dir e)) argv = Inr args \<and>
         getattr args ''tfrecords'' = Inr t \<and>
         (if truthy t
          then kind eval_dataset = ASRTFRecordDataset \<and> stage eval_dataset = ''eval'' \<and>
               shuffle eval_dataset = False
          else kind eval_dataset = ASRSliceDataset \<and> stage eval_dataset = ''train'' \<and>
               shuffle eval_dataset = True)))"
proof (intro conjI allI impI)
  fix args config sf tf eval_paths aug
  assume h: "outcome (setup_stage e argv) = Inr (args, config, sf, tf) \<and>
      dataset_config config ''eval_paths'' = Inr eval_paths \<and>
      learning_config config ''augmentations'' = Inr aug"
  then have st: "outcome (setup_stage e argv) = Inr (args, config, sf, tf)"
    and ep: "dataset_config config ''eval_paths'' = Inr eval_paths"
    and au: "learning_config config ''augmentations'' = Inr aug"
    by simp_all
  from setup_attrs [OF st, of "''tfrecords''"] obtain t where
    t: "getattr args ''tfrecords'' = Inr t"
    by auto
  note m = main_datasets_of_setup [OF st]
  have a: "\<not> truthy t \<longrightarrow>
           datasets (trace (main e argv)) =
             [\<lparr>kind = ASRSliceDataset, data_paths = eval_paths, tfrecords_dir = None,
               speech_featurizer = sf, text_featurizer = tf, stage = ''train'',
               augmentations = Some aug, shuffle = True\<rparr>,
              \<lparr>kind = ASRSliceDataset, data_paths = eval_paths, tfrecords_dir = None,
               speech_featurizer = sf, text_featurizer = tf, stage = ''train'',
               augmentations = None, shuffle = True\<rparr>]"
    unfolding m using make_datasets_slice [OF t _ ep au] by blast
  have b: "truthy t \<longrightarrow>
           (\<forall>train_paths dir.
              dataset_config config ''train_paths'' = Inr train_paths \<and>
              dataset_config config ''tfrecords_dir'' = Inr dir \<longrightarrow>
              datasets (trace (main e argv)) =
                [\<lparr>kind = ASRTFRecordDataset, data_paths = train_paths, tfrecords_dir = Some dir,
                  speech_featurizer = sf, text_featurizer = tf, stage = ''train'',
                  augmentations = Some aug, shuffle = True\<rparr>,
                 \<lparr>kind = ASRTFRecordDataset, data_paths = eval_paths, tfrecords_dir = Some dir,
                  speech_featurizer = sf, text_featurizer = tf, stage = ''eval'',
                  augmentations = None, shuffle = False\<rparr>])"
    unfolding m using make_datasets_tfrecords [OF t _ ep au] by blast
  from t a b show "\<exists>t. getattr args ''tfrecords'' = Inr t \<and>
        (\<not> truthy t \<longrightarrow>
           datasets (trace (main e argv)) =
             [\<lparr>kind = ASRSliceDataset, data_paths = eval_paths, tfrecords_dir = None,
               speech_featurizer = sf, text_featurizer = tf, stage = ''train'',
               augmentations = Some aug, shuffle = True\<rparr>,
              \<lparr>kind = ASRSliceDataset, data_paths = eval_paths, tfrecords_dir = None,
               speech_featurizer = sf, text_featurizer = tf, stage = ''train'',
               augmentations = None, shuffle = True\<rparr>]) \<and>
        (truthy t \<longrightarrow>
           (\<forall>train_paths dir.
              dataset_config config ''train_paths'' = Inr train_paths \<and>
              dataset_config config ''tfrecords_dir'' = Inr dir \<longrightarrow>
              datasets (trace (main e argv)) =
                [\<lparr>kind = ASRTFRecordDataset, data_paths = train_paths, tfrecords_dir = Some dir,
                  speech_featurizer = sf, text_featurizer = tf, stage = ''train'',
                  augmentations = Some aug, shuffle = True\<rparr>,
                 \<lparr>kind = ASRTFRecordDataset, data_paths = eval_paths, tfrecords_dir = Some dir,
                  speech_featurizer = sf, text_featurizer = tf, stage = ''eval'',
                  augmentations = None, shuffle = False\<rparr>]))"
    by (intro exI [of _ t] conjI)
next
  fix train_dataset eval_dataset
  assume d: "datasets (trace (main e argv)) = [train_dataset, eval_dataset]"
  from main_datasets [OF d] obtain args config sf tf where
    st: "outcome (setup_stage e argv) = Inr (args, config, sf, tf)" and
    md: "outcome (make_datasets args config sf tf) = Inr (train_dataset, eval_dataset)"
    by blast
  from setup_result [OF st]
  have p: "parse_args (py_int e) (parser (script_dir e)) argv = Inr args"
    by simp
  from make_datasets_result [OF md] obtain t where
    t: "getattr args ''tfrecords'' = Inr t" and
    b: "if truthy t
        then kind eval_dataset = ASRTFRecordDataset \<and> stage eval_dataset = ''eval'' \<and>
             shuffle eval_dataset = False
        else kind eval_dataset = ASRSliceDataset \<and> stage eval_dataset = ''train'' \<and>
             shuffle eval_dataset = True"
    by (auto split: if_splits)
  from p t b show "\<exists>args t. parse_args (py_int e) (parser (script_dir e)) argv = Inr args \<and>
         getattr args ''tfrecords'' = Inr t \<and>
         (if truthy t
          then kind eval_dataset = ASRTFRecordDataset \<and> stage eval_dataset = ''eval'' \<and>
               shuffle eval_dataset = False
          else kind eval_dataset = ASRSliceDataset \<and> stage eval_dataset = ''train'' \<and>
               shuffle eval_dataset = True)"
    by blast
qed

theorem eval_dataset_stage_by_branch_witness:
  "map (\<lambda>d. (kind d, stage d, shuffle d)) (datasets (trace (main sample_env []))) =
     [(ASRSliceDataset, ''train'', True), (ASRSliceDataset, ''train'', True)] \<and>
   map (\<lambda>d. (kind d, stage d, shuffle d))
     (datasets (trace (main sample_env [(''--tfrecords'', Some ''True'')]))) =
     [(ASRTFRecordDataset, ''train'', True), (ASRTFRecordDataset, ''eval'', False)]"
proof -
  let ?sf = "TFSpeechFeaturizer (PDict [(''num_feature_bins'', PInt 80)])"
  let ?tf = "TextFeaturizer (PDict [(''beam_width'', PInt 100)])"
  let ?a1 = "defaults (parser (script_dir sample_env))"
  let ?a2 = "(defaults (parser (script_dir sample_env)))(''tfrecords'' \<mapsto> PBool True)"
  have f1: "getattr ?a1 ''tfrecords'' = Inr (PBool False)"
    by (simp add: getattr_def parser_defs)
  have f2: "getattr ?a2 ''tfrecords'' = Inr (PBool True)"
    by (simp add: getattr_def)
  from eval_dataset_stage_by_branch [of sample_env "[]"]
    sample_setup_default sample_lookups(1,2)
  obtain t where t: "getattr ?a1 ''tfrecords'' = Inr t" and
    d1: "\<not> truthy t \<longrightarrow> datasets (trace (main sample_env [])) =
      [\<lparr>kind = ASRSliceDataset, data_paths = PList [PStr ''eval.tsv''], tfrecords_dir = None,
        speech_featurizer = ?sf, text_featurizer = ?tf, stage = ''train'',
        augmentations = Some PNone, shuffle = True\<rparr>,
       \<lparr>kind = ASRSliceDataset, data_paths = PList [PStr ''eval.tsv''], tfrecords_dir = None,
        speech_featurizer = ?sf, text_featurizer = ?tf, stage = ''train'',
        augmentations = None, shuffle = True\<rparr>]"
    by meson
  from t f1 have "t = PBool False" by simp
  then have "\<not> truthy t" by simp
  with d1 have r1: "map (\<lambda>d. (kind d, stage d, shuffle d)) (datasets (trace (main sample_env []))) =
     [(ASRSliceDataset, ''train'', True), (ASRSliceDataset, ''train'', True)]"
    by simp
  from eval_dataset_stage_by_branch [of sample_env "[(''--tfrecords'', Some ''True'')]"]
    sample_setup_tfrecords sample_lookups
  obtain u where u: "getattr ?a2 ''tfrecords'' = Inr u" and
    d2: "truthy u \<longrightarrow> datasets (trace (main sample_env [(''--tfrecords'', Some ''True'')])) =
      [\<lparr>kind = ASRTFRecordDataset, data_paths = PList [PStr ''train.tsv''],
        tfrecords_dir = Some (PStr ''/tmp/records''),
        speech_featurizer = ?sf, text_featurizer = ?tf, stage = ''train'',
        augmentations = Some PNone, shuffle = True\<rparr>,
       \<lparr>kind = ASRTFRecordDataset, data_paths = PList [PStr ''eval.tsv''],
        tfrecords_dir = Some (PStr ''/tmp/records''),
        speech_featurizer = ?sf, text_featurizer = ?tf, stage = ''eval'',
        augmentations = None, shuffle = False\<rparr>]"
    by meson
  from u f2 have "u = PBool True" by simp
  then have "truthy u" by simp
  with d2 have r2: "map (\<lambda>d. (kind d, stage d, shuffle d))
     (datasets (trace (main sample_env [(''--tfrecords'', Some ''True'')]))) =
     [(ASRTFRecordDataset, ''train'', True), (ASRTFRecordDataset, ''eval'', False)]"
    by simp
  from r1 r2 show ?thesis by (rule conjI)
qed

section \<open>The paths the datasets are constructed from\<close>

text \<open>
  Claim C1, as stated: in every run both datasets are constructed from the
  configuration's \<^verbatim>\<open>eval_paths\<close>. It fails in the tfrecords branch: with the sample
  configuration, whose \<^verbatim>\<open>train_paths\<close> and \<^verbatim>\<open>eval_paths\<close> differ, and the command line
  \<^verbatim>\<open>--tfrecords True\<close>, the train dataset is constructed from \<^verbatim>\<open>train_paths\<close> (line 73).
\<close>

theorem both_datasets_from_eval_paths_counterexample:
  "UserConfig (yaml_files sample_env) (DEFAULT_YAML (script_dir sample_env))
     (PStr (DEFAULT_YAML (script_dir sample_env))) True = Inr (PDict sample_config) \<and>
   length (datasets (trace (main sample_env [(''--tfrecords'', Some ''True'')]))) = 2 \<and>
   \<not> from_eval_paths (PDict sample_config)
       (datasets (trace (main sample_env [(''--tfrecords'', Some ''True'')])))"
  unfolding sample_run_tfrecords sample_user_config
  by (simp add: from_eval_paths_def dataset_config_def learning_config_def config_getitem_def
      bind_r_def sample_config_def)

text \<open>
  Claim C1, amended. Whenever a run constructs its two datasets, the eval dataset is
  constructed from the \<^verbatim>\<open>eval_paths\<close> of the loaded configuration; the train dataset is
  constructed from \<^verbatim>\<open>eval_paths\<close> as well when the parsed \<^verbatim>\<open>--tfrecords\<close> attribute is
  false (lines 84 to 89), and from \<^verbatim>\<open>train_paths\<close> when it is true (lines 72 to 77).
\<close>

theorem dataset_paths_by_branch:
  assumes "datasets (trace (main e argv)) = [train_dataset, eval_dataset]"
  shows "\<exists>args t custom config.
     parse_args (py_int e) (parser (script_dir e)) argv = Inr args \<and>
     getattr args ''tfrecords'' = Inr t \<and>
     getattr args ''config'' = Inr custom \<and>
     UserConfig (yaml_files e) (DEFAULT_YAML (script_dir e)) custom True = Inr config \<and>
     (if truthy t
      then dataset_config config ''train_paths'' = Inr (data_paths train_dataset) \<and>
           dataset_config config ''eval_paths'' = Inr (data_paths eval_dataset)
      else from_eval_paths config [train_dataset, eval_dataset])"
proof -
  from main_datasets [OF assms] obtain args config sf tf where
    st: "outcome (setup_stage e argv) = Inr (args, config, sf, tf)" and
    md: "outcome (make_datasets args config sf tf) = Inr (train_dataset, eval_dataset)"
    by blast
  from setup_result [OF st] obtain custom where
    p: "parse_args (py_int e) (parser (script_dir e)) argv = Inr args" and
    c: "getattr args ''config'' = Inr custom" and
    u: "UserConfig (yaml_files e) (DEFAULT_YAML (script_dir e)) custom True = Inr config"
    by blast
  from make_datasets_result [OF md] obtain t where
    t: "getattr args ''tfrecords'' = Inr t" and
    b: "if truthy t
        then dataset_config config ''train_paths'' = Inr (data_paths train_dataset) \<and>
             dataset_config config ''eval_paths'' = Inr (data_paths eval_dataset)
        else from_eval_paths config [train_dataset, eval_dataset]"
    by (auto simp: from_eval_paths_def split: if_splits)
  from p t c u b show ?thesis by blast
qed

theorem dataset_paths_by_branch_witness:
  "\<exists>d1 d2 config. datasets (trace (main sample_env [])) = [d1, d2] \<and>
     from_eval_paths config [d1, d2]"
proof -
  from sample_run_default obtain d1 d2 where
    h: "datasets (trace (main sample_env [])) = [d1, d2]"
    by simp
  from dataset_paths_by_branch [OF h] obtain args t custom config where
    p: "parse_args (py_int sample_env) (parser (script_dir sample_env)) [] = Inr args" and
    t: "getattr args ''tfrecords'' = Inr t" and
    b: "if truthy t
        then dataset_config config ''train_paths'' = Inr (data_paths d1) \<and>
             dataset_config config ''eval_paths'' = Inr (data_paths d2)
        else from_eval_paths config [d1, d2]"
    by (elim exE conjE) (rule that)
  from parse_empty_tfrecords [OF p] t have "\<not> truthy t" by simp
  with b have "from_eval_paths config [d1, d2]" by simp
  with h show ?thesis by blast
qed

section \<open>The random seed\<close>

text \<open>
  Claim C10. Line 64 sets the global seed to the constant 2020, whatever the command line
  and the configuration. In every run, each event that constructs a dataset or the model
  happens with the seed 2020 in effect; no other seed is ever set; and every run that
  gets past the configuration and the featurizers (lines 33 to 62) sets it. Hence in any
  two runs the constructions happen under the same seed, and a generator that is a
  function of the seed draws the same sequence in both.
\<close>

theorem seed_2020_before_construction:
  "(\<forall>(ev, s) \<in> set (seed_in_effect None (trace (main e argv))).
      is_construction ev \<longrightarrow> s = Some 2020) \<and>
   (\<forall>n. SetSeed n \<in> set (trace (main e argv)) \<longrightarrow> n = 2020) \<and>
   (\<forall>st. outcome (setup_stage e argv) = Inr st \<longrightarrow> SetSeed 2020 \<in> set (trace (main e argv))) \<and>
   (\<forall>(ev, s) \<in> set (seed_in_effect None (trace (main e argv))).
    \<forall>(ev', s') \<in> set (seed_in_effect None (trace (main e' argv'))).
      is_construction ev \<and> is_construction ev' \<longrightarrow> s = s')"
proof (intro conjI)
  show "\<forall>(ev, s) \<in> set (seed_in_effect None (trace (main e argv))).
      is_construction ev \<longrightarrow> s = Some 2020"
    using main_seeded by blast
next
  have pre: "\<forall>n. SetSeed n \<notin> set (trace (setup_stage e argv))"
    using setup_trace [of e argv] by auto
  then show "\<forall>n. SetSeed n \<in> set (trace (main e argv)) \<longrightarrow> n = 2020"
    by (auto simp: main_trace train_stage_no_seed split: sum.splits)
next
  show "\<forall>st. outcome (setup_stage e argv) = Inr st \<longrightarrow> SetSeed 2020 \<in> set (trace (main e argv))"
    by (simp add: main_trace)
next
  show "\<forall>(ev, s) \<in> set (seed_in_effect None (trace (main e argv))).
    \<forall>(ev', s') \<in> set (seed_in_effect None (trace (main e' argv'))).
      is_construction ev \<and> is_construction ev' \<longrightarrow> s = s'"
    using main_seeded by blast
qed

theorem seed_2020_before_construction_witness:
  "4 < length (seed_in_effect None (trace (main sample_env []))) \<and>
   is_construction (fst (seed_in_effect None (trace (main sample_env [])) ! 4)) \<and>
   snd (seed_in_effect None (trace (main sample_env [])) ! 4) = Some 2020"
proof -
  let ?xs = "seed_in_effect None (trace (main sample_env []))"
  from sample_run_seed have len: "4 < length ?xs" and c: "is_construction (fst (?xs ! 4))"
    by simp_all
  from len have mem: "?xs ! 4 \<in> set ?xs" by (rule nth_mem)
  from seed_2020_before_construction [of sample_env "[]"] mem c
  have "snd (?xs ! 4) = Some 2020" by (auto simp: case_prod_beta)
  with len c show ?thesis by simp
qed

section \<open>Merging the configuration\<close>

lemma map_of_filter_absent:
  "map_of (filter (\<lambda>(k, v). map_of c k = None) d) k =
     (if map_of c k = None then map_of d k else None)"
  by (induction d) auto

lemma map_of_merge_settings:
  "map_of (merge_settings d c) k = (case map_of c k of Some v \<Rightarrow> Some v | None \<Rightarrow> map_of d k)"
  by (simp add: merge_settings_def map_add_def map_of_filter_absent split: option.splits)

text \<open>
  Claim C2. For a default settings file and an override settings file that both exist,
  the loader yields one merged mapping in which every key of the override has the
  override's value and every key absent from the override has what the default gives
  it (its value there, or the same missing-key error); when the override file is
  missing, the loader yields the defaults and raises nothing.
\<close>

theorem override_takes_precedence_per_key:
  assumes "fs default_path = Some d"
  shows "(\<forall>c. fs custom = Some c \<longrightarrow>
       (\<exists>m. UserConfig fs default_path (PStr custom) learning = Inr (PDict m) \<and>
          (\<forall>k v. map_of c k = Some v \<longrightarrow> getitem (PDict m) k = Inr v) \<and>
          (\<forall>k. map_of c k = None \<longrightarrow> getitem (PDict m) k = getitem (PDict d) k))) \<and>
     (fs custom = None \<longrightarrow>
        UserConfig fs default_path (PStr custom) learning = Inr (PDict d))"
  using assms by (simp add: UserConfig_def map_of_merge_settings)

theorem override_takes_precedence_per_key_witness:
  "sample_files ''default.yml'' = Some sample_config \<and>
   sample_files ''custom.yml'' = Some sample_override \<and>
   (\<exists>m. UserConfig sample_files ''default.yml'' (PStr ''custom.yml'') True = Inr (PDict m) \<and>
      getitem (PDict m) ''model_config'' = Inr (PDict [(''rnn_units'', PInt 512)]) \<and>
      getitem (PDict m) ''speech_config'' = Inr (PDict [(''num_feature_bins'', PInt 80)]))"
proof -
  have h1: "sample_files ''default.yml'' = Some sample_config"
    by (simp add: sample_files_def)
  have h2: "sample_files ''custom.yml'' = Some sample_override"
    by (simp add: sample_files_def)
  from override_takes_precedence_per_key
         [of sample_files "''default.yml''" sample_config "''custom.yml''" True] h1 h2
  obtain m where
    m: "UserConfig sample_files ''default.yml'' (PStr ''custom.yml'') True = Inr (PDict m)" and
    o: "\<forall>k v. map_of sample_override k = Some v \<longrightarrow> getitem (PDict m) k = Inr v" and
    d: "\<forall>k. map_of sample_override k = None \<longrightarrow>
          getitem (PDict m) k = getitem (PDict sample_config) k"
    by blast
  have "map_of sample_override ''model_config'' = Some (PDict [(''rnn_units'', PInt 512)])"
    by (simp add: sample_override_def)
  with o have a: "getitem (PDict m) ''model_config'' = Inr (PDict [(''rnn_units'', PInt 512)])"
    by blast
  have "map_of sample_override ''speech_config'' = None"
    by (simp add: sample_override_def)
  with d have "getitem (PDict m) ''speech_config'' = getitem (PDict sample_config) ''speech_config''"
    by blast
  then have b: "getitem (PDict m) ''speech_config'' = Inr (PDict [(''num_feature_bins'', PInt 80)])"
    by (simp add: sample_config_def)
  from h1 h2 m a b show ?thesis by blast
qed

section \<open>The vocabulary round trip\<close>











section \<open>Checkpoint pruning\<close>

lemma sweep_drop: "sweep k cs = drop (length cs - k) cs"
proof (induction cs)
  case Nil
  then show ?case by simp
next
  case (Cons c cs)
  show ?case
  proof (cases "k < length (c # cs)")
    case True
    then have "length (c # cs) - k = Suc (length cs - k)" by simp
    with True Cons show ?thesis by simp
  next
    case False
    then show ?thesis by simp
  qed
qed

lemma saves_state:
  "max_to_keep (saves n (new_manager k)) = k \<and>
   save_counter (saves n (new_manager k)) = n \<and>
   checkpoints (saves n (new_manager k)) = [n + 1 - min n k ..< n + 1]"
proof (induction n)
  case 0
  then show ?case by (simp add: new_manager_def)
next
  case (Suc n)
  let ?m = "saves n (new_manager k)"
  from Suc have mk: "max_to_keep ?m = k" and sc: "save_counter ?m = n"
    and cs: "checkpoints ?m = [n + 1 - min n k ..< n + 1]"
    by simp_all
  have "n + 1 - min n k \<le> n + 1" by simp
  then have "[n + 1 - min n k ..< Suc (n + 1)] = [n + 1 - min n k ..< n + 1] @ [n + 1]"
    by (rule upt_Suc_append)
  then have app: "checkpoints ?m @ [n + 1] = [n + 1 - min n k ..< n + 2]"
    unfolding cs by simp
  have len: "length [n + 1 - min n k ..< n + 2] = min n k + 1"
    by (simp only: length_upt)
  have "checkpoints (saves (Suc n) (new_manager k)) = sweep k (checkpoints ?m @ [n + 1])"
    by (simp add: save_def Let_def mk sc)
  also have "\<dots> = sweep k [n + 1 - min n k ..< n + 2]"
    by (simp only: app)
  also have "\<dots> = drop (length [n + 1 - min n k ..< n + 2] - k) [n + 1 - min n k ..< n + 2]"
    by (rule sweep_drop)
  also have "\<dots> = drop (min n k + 1 - k) [n + 1 - min n k ..< n + 2]"
    by (simp only: len)
  also have "\<dots> = [n + 1 - min n k + (min n k + 1 - k) ..< n + 2]"
    by (simp only: drop_upt)
  also have "n + 1 - min n k + (min n k + 1 - k) = Suc n + 1 - min (Suc n) k"
    by (simp add: min_def)
  finally have c: "checkpoints (saves (Suc n) (new_manager k)) =
      [Suc n + 1 - min (Suc n) k ..< Suc n + 1]"
    by simp
  have "max_to_keep (saves (Suc n) (new_manager k)) = k"
    by (simp add: save_def Let_def mk)
  moreover have "save_counter (saves (Suc n) (new_manager k)) = Suc n"
    by (simp add: save_def Let_def sc)
  ultimately show ?case using c by blast
qed

text \<open>
  Claim C4. For every number \<open>N \<ge> 1\<close> of saves and every \<open>k = max_ckpts \<ge> 1\<close>, after
  \<open>N\<close> saves exactly \<open>min N k\<close> checkpoints remain, and they are the most recent ones:
  \<^verbatim>\<open>ckpt-(N - min N k + 1)\<close> up to \<^verbatim>\<open>ckpt-N\<close>, that is all \<open>N\<close> when \<open>N \<le> k\<close> and the last
  \<open>k\<close> otherwise. With \<open>k = 2\<close>, three saves leave \<^verbatim>\<open>ckpt-2\<close> and \<^verbatim>\<open>ckpt-3\<close>.
\<close>

theorem checkpoints_pruned_to_most_recent:
  assumes "1 \<le> N" and "1 \<le> k"
  shows "length (checkpoints (saves N (new_manager k))) = min N k \<and>
     checkpoints (saves N (new_manager k)) = [N + 1 - min N k ..< N + 1] \<and>
     (N \<le> k \<longrightarrow> checkpoints (saves N (new_manager k)) = [1 ..< N + 1]) \<and>
     (k < N \<longrightarrow> checkpoints (saves N (new_manager k)) = [N + 1 - k ..< N + 1]) \<and>
     checkpoints (saves 3 (new_manager 2)) = [2, 3]"
proof -
  have c: "checkpoints (saves n (new_manager j)) = [n + 1 - min n j ..< n + 1]" for n j
    using saves_state [of n j] by simp
  have "checkpoints (saves 3 (new_manager 2)) = [4 - min 3 2 ..< 4]"
    using c [of 3 2] by simp
  also have "\<dots> = [2, 3]"
    by (simp add: upt_rec)
  finally have ex: "checkpoints (saves 3 (new_manager 2)) = [2, 3]" .
  have l: "length [N + 1 - min N k ..< N + 1] = min N k"
    by (simp only: length_upt)
  have a: "N \<le> k \<longrightarrow> [N + 1 - min N k ..< N + 1] = [1 ..< N + 1]"
  proof
    assume "N \<le> k"
    then have "N + 1 - min N k = 1" by simp
    then show "[N + 1 - min N k ..< N + 1] = [1 ..< N + 1]" by (simp only:)
  qed
  have b: "k < N \<longrightarrow> [N + 1 - min N k ..< N + 1] = [N + 1 - k ..< N + 1]"
  proof
    assume "k < N"
    then have "min N k = k" by simp
    then show "[N + 1 - min N k ..< N + 1] = [N + 1 - k ..< N + 1]" by (simp only:)
  qed
  show ?thesis
    unfolding c [of N k] using ex l a b by (simp only: c [of 3 2] simp_thms)
qed

theorem checkpoints_pruned_to_most_recent_witness:
  "(1::nat) \<le> 5 \<and> (1::nat) \<le> 2 \<and>
   length (checkpoints (saves 5 (new_manager 2))) = 2 \<and>
   checkpoints (saves 5 (new_manager 2)) = [4, 5]"
proof -
  have h1: "(1::nat) \<le> 5" and h2: "(1::nat) \<le> 2" by simp_all
  from checkpoints_pruned_to_most_recent [OF h1 h2]
  have "checkpoints (saves 5 (new_manager 2)) = [5 + 1 - min 5 2 ..< 5 + 1]"
    by blast
  also have "\<dots> = [4, 5]" by (simp add: upt_rec)
  finally show ?thesis by simp
qed


end
